theory Spec2Isabelle
  imports Complex_Main "HOL-Library.Monad_Syntax"
begin

section \<open>Data model of color.ts\<close>

text \<open>
  The TypeScript type \<^verbatim>\<open>number\<close> is modelled by exact arithmetic: channel and
  percentage values, which the code only ever builds with \<^verbatim>\<open>Math.round\<close>,
  \<^verbatim>\<open>Math.min\<close> on digit strings or \<^verbatim>\<open>parseInt\<close>, are \<^typ>\<open>int\<close>; intermediate
  quantities are \<^typ>\<open>real\<close>. Rounding errors of IEEE doubles are therefore not
  part of the model. A \<^verbatim>\<open>NaN\<close> produced by \<^verbatim>\<open>parseInt\<close> is the value \<open>None\<close>.
  A \<^typ>\<open>char\<close> stands for a UTF-16 code unit below 256.
\<close>

record HSLColor =
  h :: int
  s :: int
  l :: int

record RGBColor =
  r :: int
  g :: int
  b :: int

section \<open>Characters and numerals\<close>

definition isSpace :: "char \<Rightarrow> bool" where
  \<comment> \<open>the white space and line terminators of ECMAScript (\<^verbatim>\<open>\s\<close>, \<^verbatim>\<open>trim\<close>) below 256\<close>
  "isSpace c \<longleftrightarrow> c \<in> set [CHR 0x09, CHR 0x0A, CHR 0x0B, CHR 0x0C, CHR 0x0D, CHR 0x20, CHR 0xA0]"

definition isDigit :: "char \<Rightarrow> bool" where
  "isDigit c \<longleftrightarrow> c \<in> set ''0123456789''"

definition isHexDigit :: "char \<Rightarrow> bool" where
  "isHexDigit c \<longleftrightarrow> c \<in> set ''0123456789abcdefABCDEF''"

definition isLowerHexDigit :: "char \<Rightarrow> bool" where
  "isLowerHexDigit c \<longleftrightarrow> c \<in> set ''0123456789abcdef''"

definition hexVal :: "char \<Rightarrow> nat" where
  "hexVal c = (if isDigit c then of_char c - 48
               else if c \<in> set ''abcdef'' then of_char c - 87
               else of_char c - 55)"

definition hexValue :: "string \<Rightarrow> nat" where
  \<comment> \<open>value of a string of hexadecimal digits, most significant first\<close>
  "hexValue ds = foldl (\<lambda>acc c. 16 * acc + hexVal c) 0 ds"

definition hexDigit :: "nat \<Rightarrow> char" where
  "hexDigit d = ''0123456789abcdef'' ! d"

fun toString16_nat :: "nat \<Rightarrow> string" where
  "toString16_nat n =
     (if n < 16 then [hexDigit n] else toString16_nat (n div 16) @ [hexDigit (n mod 16)])"

declare toString16_nat.simps [simp del]

definition toString16 :: "int \<Rightarrow> string" where
  \<comment> \<open>\<^verbatim>\<open>n.toString(16)\<close> on an integral number\<close>
  "toString16 n = (if n < 0 then CHR ''-'' # toString16_nat (nat (- n)) else toString16_nat (nat n))"

definition padStart :: "nat \<Rightarrow> char \<Rightarrow> string \<Rightarrow> string" where
  "padStart n c str = replicate (n - length str) c @ str"

definition parseInt16 :: "string \<Rightarrow> int option" where
  \<comment> \<open>\<^verbatim>\<open>parseInt(str, 16)\<close>: leading white space, a sign and a \<^verbatim>\<open>0x\<close> prefix are
      skipped, the longest run of hexadecimal digits is read, and no digit gives \<^verbatim>\<open>NaN\<close>\<close>
  "parseInt16 str =
     (let t = dropWhile isSpace str;
          sgn = (case t of c # _ \<Rightarrow> if c = CHR ''-'' then - 1 else 1 | [] \<Rightarrow> (1::int));
          u = (case t of c # cs \<Rightarrow> if c = CHR ''-'' \<or> c = CHR ''+'' then cs else t | [] \<Rightarrow> t);
          v = (if take 2 u = ''0x'' \<or> take 2 u = ''0X'' then drop 2 u else u);
          ds = takeWhile isHexDigit v
      in if ds = [] then None else Some (sgn * int (hexValue ds)))"

section \<open>Conversions\<close>

definition toHex :: "int \<Rightarrow> string" where
  "toHex n = padStart 2 (CHR ''0'') (toString16 n)"

definition rgbToHex :: "RGBColor \<Rightarrow> string" where
  "rgbToHex c = CHR ''#'' # toHex (r c) @ toHex (g c) @ toHex (b c)"

fun replaceFirst :: "char \<Rightarrow> string \<Rightarrow> string" where
  \<comment> \<open>\<^verbatim>\<open>str.replace(c, '')\<close>: only the first occurrence goes\<close>
  "replaceFirst c [] = []"
| "replaceFirst c (x # xs) = (if x = c then xs else x # replaceFirst c xs)"

definition slice :: "nat \<Rightarrow> nat \<Rightarrow> string \<Rightarrow> string" where
  "slice i j str = take (j - i) (drop i str)"

definition hexToRgb :: "string \<Rightarrow> RGBColor option" where
  \<comment> \<open>\<open>None\<close> stands for a record with a \<^verbatim>\<open>NaN\<close> channel\<close>
  "hexToRgb hex =
     (let clean = replaceFirst (CHR ''#'') hex in
      case (parseInt16 (slice 0 2 clean), parseInt16 (slice 2 4 clean), parseInt16 (slice 4 6 clean)) of
        (Some x, Some y, Some z) \<Rightarrow> Some \<lparr>r = x, g = y, b = z\<rparr>
      | _ \<Rightarrow> None)"

definition mathRound :: "real \<Rightarrow> int" where
  \<comment> \<open>\<^verbatim>\<open>Math.round\<close>: the nearest integer, a half going up\<close>
  "mathRound x = \<lfloor>x + 1 / 2\<rfloor>"

definition jsRem :: "real \<Rightarrow> real \<Rightarrow> real" where
  \<comment> \<open>the operator \<^verbatim>\<open>%\<close>: the quotient is truncated towards zero\<close>
  "jsRem x y = x - y * of_int (if 0 \<le> x / y then \<lfloor>x / y\<rfloor> else \<lceil>x / y\<rceil>)"

definition hslToRgb :: "HSLColor \<Rightarrow> RGBColor" where
  "hslToRgb hsl =
     (let hue = real_of_int (h hsl);
          sn = real_of_int (s hsl) / 100;
          ln = real_of_int (l hsl) / 100;
          c = (1 - \<bar>2 * ln - 1\<bar>) * sn;
          x = c * (1 - \<bar>jsRem (hue / 60) 2 - 1\<bar>);
          m = ln - c / 2;
          (r1, g1, b1) =
            (if hue < 60 then (c, x, 0)
             else if hue < 120 then (x, c, 0)
             else if hue < 180 then (0, c, x)
             else if hue < 240 then (0, x, c)
             else if hue < 300 then (x, 0, c)
             else (c, 0, x))
      in \<lparr>r = mathRound ((r1 + m) * 255),
          g = mathRound ((g1 + m) * 255),
          b = mathRound ((b1 + m) * 255)\<rparr>)"

definition rgbToHsl :: "RGBColor \<Rightarrow> HSLColor" where
  "rgbToHsl rgb =
     (let rn = real_of_int (r rgb) / 255;
          gn = real_of_int (g rgb) / 255;
          bn = real_of_int (b rgb) / 255;
          mx = max rn (max gn bn);
          mn = min rn (min gn bn);
          d = mx - mn;
          lum = (mx + mn) / 2
      in if d = 0 then \<lparr>h = 0, s = 0, l = mathRound (lum * 100)\<rparr>
         else
           let sat = (if lum > 1 / 2 then d / (2 - mx - mn) else d / (mx + mn));
               hue = (if mx = rn then ((gn - bn) / d + (if gn < bn then 6 else 0)) * 60
                      else if mx = gn then ((bn - rn) / d + 2) * 60
                      else ((rn - gn) / d + 4) * 60)
           in \<lparr>h = mathRound hue, s = mathRound (sat * 100), l = mathRound (lum * 100)\<rparr>)"

definition hslToHex :: "HSLColor \<Rightarrow> string" where
  "hslToHex hsl = rgbToHex (hslToRgb hsl)"

definition hexToHsl :: "string \<Rightarrow> HSLColor option" where
  "hexToHsl hex = map_option rgbToHsl (hexToRgb hex)"

section \<open>Flexible input parsing\<close>

datatype error = Error string

definition trim :: "string \<Rightarrow> string" where
  "trim str = rev (dropWhile isSpace (rev (dropWhile isSpace str)))"

definition toLowerCase_char :: "char \<Rightarrow> char" where
  \<comment> \<open>on ASCII; the code lowers strings of hexadecimal digits only\<close>
  "toLowerCase_char c =
     (case map_of (zip ''ABCDEFGHIJKLMNOPQRSTUVWXYZ'' ''abcdefghijklmnopqrstuvwxyz'') c of
        Some d \<Rightarrow> d | None \<Rightarrow> c)"

definition toLowerCase :: "string \<Rightarrow> string" where
  "toLowerCase str = map toLowerCase_char str"

definition canonicalize :: "char \<Rightarrow> char" where
  \<comment> \<open>what the flag \<^verbatim>\<open>i\<close> compares: the upper-case form of a character. The keywords
      are ASCII letters, and no other character below 256 has an ASCII upper-case form,
      so only a-z are mapped\<close>
  "canonicalize c =
     (case map_of (zip ''abcdefghijklmnopqrstuvwxyz'' ''ABCDEFGHIJKLMNOPQRSTUVWXYZ'') c of
        Some d \<Rightarrow> d | None \<Rightarrow> c)"

definition keyword :: "string \<Rightarrow> string \<Rightarrow> string option" where
  \<comment> \<open>a literal of the pattern, compared without case; the rest of the input is returned\<close>
  "keyword lit str =
     (if map canonicalize (take (length lit) str) = map canonicalize lit
      then Some (drop (length lit) str) else None)"

definition skipSpaces :: "string \<Rightarrow> string" where
  \<comment> \<open>\<^verbatim>\<open>\s*\<close>\<close>
  "skipSpaces str = dropWhile isSpace str"

definition digits13 :: "string \<Rightarrow> (string \<times> string) option" where
  \<comment> \<open>\<^verbatim>\<open>(\d{1,3})\<close>. In both patterns the group is followed by \<^verbatim>\<open>%\<close>, white space or a
      comma, never by a digit, so the group matches exactly when the whole run of digits
      at this place has one to three characters\<close>
  "digits13 str =
     (let ds = takeWhile isDigit str
      in if 1 \<le> length ds \<and> length ds \<le> 3 then Some (ds, dropWhile isDigit str) else None)"

definition expect :: "char \<Rightarrow> string \<Rightarrow> string option" where
  "expect c str = (case str of [] \<Rightarrow> None | x # xs \<Rightarrow> if x = c then Some xs else None)"

definition optional :: "char \<Rightarrow> string \<Rightarrow> string" where
  \<comment> \<open>\<^verbatim>\<open>%?\<close>: what follows it in the pattern never starts with the same character\<close>
  "optional c str = (case str of [] \<Rightarrow> str | x # xs \<Rightarrow> if x = c then xs else str)"

definition endOfInput :: "string \<Rightarrow> unit option" where
  \<comment> \<open>\<^verbatim>\<open>$\<close> without the flag \<^verbatim>\<open>m\<close>\<close>
  "endOfInput str = (if str = [] then Some () else None)"

definition hexMatch :: "string \<Rightarrow> string option" where
  \<comment> \<open>\<^verbatim>\<open>/^#?([0-9a-fA-F]{3}|[0-9a-fA-F]{6})$/\<close>, giving group 1\<close>
  "hexMatch str =
     (let body = optional (CHR ''#'') str
      in if list_all isHexDigit body \<and> (length body = 3 \<or> length body = 6) then Some body else None)"

definition rgbMatch :: "string \<Rightarrow> (string \<times> string \<times> string) option" where
  \<comment> \<open>\<^verbatim>\<open>/^rgb\(\s*(\d{1,3})\s*,\s*(\d{1,3})\s*,\s*(\d{1,3})\s*\)$/i\<close>, giving groups 1 to 3\<close>
  "rgbMatch str = do {
     t0 \<leftarrow> keyword ''rgb('' str;
     (d1, t1) \<leftarrow> digits13 (skipSpaces t0);
     t2 \<leftarrow> expect (CHR '','') (skipSpaces t1);
     (d2, t3) \<leftarrow> digits13 (skipSpaces t2);
     t4 \<leftarrow> expect (CHR '','') (skipSpaces t3);
     (d3, t5) \<leftarrow> digits13 (skipSpaces t4);
     t6 \<leftarrow> expect (CHR '')'') (skipSpaces t5);
     _ \<leftarrow> endOfInput t6;
     Some (d1, d2, d3)
   }"

definition hslMatch :: "string \<Rightarrow> (string \<times> string \<times> string) option" where
  \<comment> \<open>\<^verbatim>\<open>/^hsl\(\s*(\d{1,3})\s*,\s*(\d{1,3})%?\s*,\s*(\d{1,3})%?\s*\)$/i\<close>, giving groups 1 to 3\<close>
  "hslMatch str = do {
     t0 \<leftarrow> keyword ''hsl('' str;
     (d1, t1) \<leftarrow> digits13 (skipSpaces t0);
     t2 \<leftarrow> expect (CHR '','') (skipSpaces t1);
     (d2, t3) \<leftarrow> digits13 (skipSpaces t2);
     t4 \<leftarrow> expect (CHR '','') (skipSpaces (optional (CHR ''%'') t3));
     (d3, t5) \<leftarrow> digits13 (skipSpaces t4);
     t6 \<leftarrow> expect (CHR '')'') (skipSpaces (optional (CHR ''%'') t5));
     _ \<leftarrow> endOfInput t6;
     Some (d1, d2, d3)
   }"

definition decValue :: "string \<Rightarrow> int" where
  \<comment> \<open>unary \<^verbatim>\<open>+\<close> on a string of decimal digits\<close>
  "decValue ds = int (foldl (\<lambda>acc c. 10 * acc + (of_char c - 48)) 0 ds)"

definition acceptedFormats :: string where
  "acceptedFormats = ''Accepted formats: #6C5CE7, 6C5CE7, #6CE, rgb(108,92,231), hsl(249,75%,63%)''"

definition parseError :: "string \<Rightarrow> error" where
  "parseError input = Error (''Cannot parse '' @ [CHR 0x22] @ input @ [CHR 0x22] @ ''. '' @ acceptedFormats)"

definition expandShort :: "string \<Rightarrow> string" where
  "expandShort hex =
     (if length hex = 3 then [hex ! 0, hex ! 0, hex ! 1, hex ! 1, hex ! 2, hex ! 2] else hex)"

definition parseColor :: "string \<Rightarrow> error + string" where
  "parseColor input =
     (let str = trim input in
      case hexMatch str of
        Some hex \<Rightarrow> Inr (CHR ''#'' # toLowerCase (expandShort hex))
      | None \<Rightarrow>
     (case rgbMatch str of
        Some (d1, d2, d3) \<Rightarrow>
          Inr (rgbToHex \<lparr>r = min 255 (decValue d1), g = min 255 (decValue d2), b = min 255 (decValue d3)\<rparr>)
      | None \<Rightarrow>
     (case hslMatch str of
        Some (d1, d2, d3) \<Rightarrow>
          Inr (hslToHex \<lparr>h = min 360 (decValue d1), s = min 100 (decValue d2), l = min 100 (decValue d3)\<rparr>)
      | None \<Rightarrow> Inl (parseError input))))"


section \<open>WCAG contrast\<close>

definition linearize :: "int \<Rightarrow> real" where
  \<comment> \<open>the inner function of \<^verbatim>\<open>relativeLuminance\<close>; the base of \<^verbatim>\<open>Math.pow\<close> is positive
      in its branch, where it is the real power\<close>
  "linearize c =
     (let srgb = real_of_int c / 255
      in if srgb \<le> 0.03928 then srgb / 12.92 else ((srgb + 0.055) / 1.055) powr 2.4)"

definition relativeLuminance :: "RGBColor \<Rightarrow> real" where
  "relativeLuminance rgb =
     0.2126 * linearize (r rgb) + 0.7152 * linearize (g rgb) + 0.0722 * linearize (b rgb)"

definition contrastRatio :: "RGBColor \<Rightarrow> RGBColor \<Rightarrow> real" where
  "contrastRatio c1 c2 =
     (let la = relativeLuminance c1;
          lb = relativeLuminance c2;
          lighter = max la lb;
          darker = min la lb
      in (lighter + 0.05) / (darker + 0.05))"

definition textColorForBackground :: "string \<Rightarrow> string" where
  \<comment> \<open>a \<^verbatim>\<open>NaN\<close> channel makes both ratios \<^verbatim>\<open>NaN\<close> and the comparison false\<close>
  "textColorForBackground hex =
     (case hexToRgb hex of
        None \<Rightarrow> ''#000000''
      | Some rgb \<Rightarrow>
          let white = \<lparr>r = 255, g = 255, b = 255\<rparr>;
              black = \<lparr>r = 0, g = 0, b = 0\<rparr>
          in if contrastRatio rgb white > contrastRatio rgb black then ''#ffffff'' else ''#000000'')"

section \<open>Palette generation\<close>


definition decDigit :: "nat \<Rightarrow> char" where
  "decDigit d = ''0123456789'' ! d"

fun String_nat :: "nat \<Rightarrow> string" where
  \<comment> \<open>\<^verbatim>\<open>String(i)\<close> on an array index\<close>
  "String_nat n = (if n < 10 then [decDigit n] else String_nat (n div 10) @ [decDigit (n mod 10)])"

declare String_nat.simps [simp del]






text \<open>The text \<^verbatim>\<open>rgb(x,y,z)\<close> and \<^verbatim>\<open>hsl(x,y,z)\<close> of three numbers, in decimal.\<close>

definition rgbText :: "int \<Rightarrow> int \<Rightarrow> int \<Rightarrow> string" where
  "rgbText x y z =
     ''rgb('' @ String_nat (nat x) @ '','' @ String_nat (nat y) @ '','' @ String_nat (nat z) @ '')''"

definition hslText :: "int \<Rightarrow> int \<Rightarrow> int \<Rightarrow> string" where
  "hslText x y z =
     ''hsl('' @ String_nat (nat x) @ '','' @ String_nat (nat y) @ '','' @ String_nat (nat z) @ '')''"

section \<open>The accepted grammars, as the specification words them\<close>

definition spaces :: "string \<Rightarrow> bool" where
  "spaces w = list_all isSpace w"

definition digitGroup :: "string \<Rightarrow> bool" where
  \<comment> \<open>an integer of one to three decimal digits\<close>
  "digitGroup d \<longleftrightarrow> list_all isDigit d \<and> 1 \<le> length d \<and> length d \<le> 3"

definition percentSign :: "string \<Rightarrow> bool" where
  \<comment> \<open>an optional \<^verbatim>\<open>%\<close>\<close>
  "percentSign p \<longleftrightarrow> p = [] \<or> p = ''%''"

definition hexGrammar :: "string \<Rightarrow> bool" where
  \<comment> \<open>exactly 3 or 6 hexadecimal digits with an optional leading \<^verbatim>\<open>#\<close>\<close>
  "hexGrammar str \<longleftrightarrow>
     (\<exists>ds. (str = ds \<or> str = CHR ''#'' # ds) \<and> list_all isHexDigit ds \<and> (length ds = 3 \<or> length ds = 6))"

definition rgbForm :: "string \<Rightarrow> string \<Rightarrow> string \<Rightarrow> string \<Rightarrow> bool" where
  \<comment> \<open>\<^verbatim>\<open>rgb(r, g, b)\<close> with the three channels \<open>d1\<close>, \<open>d2\<close>, \<open>d3\<close>\<close>
  "rgbForm str d1 d2 d3 \<longleftrightarrow>
     (\<exists>kw w1 w2 w3 w4 w5 w6.
        str = kw @ ''('' @ w1 @ d1 @ w2 @ '','' @ w3 @ d2 @ w4 @ '','' @ w5 @ d3 @ w6 @ '')'' \<and>
        map canonicalize kw = ''RGB'' \<and>
        spaces w1 \<and> spaces w2 \<and> spaces w3 \<and> spaces w4 \<and> spaces w5 \<and> spaces w6 \<and>
        digitGroup d1 \<and> digitGroup d2 \<and> digitGroup d3)"

definition hslForm :: "string \<Rightarrow> string \<Rightarrow> string \<Rightarrow> string \<Rightarrow> bool" where
  \<comment> \<open>\<^verbatim>\<open>hsl(h, s, l)\<close> with an optional \<^verbatim>\<open>%\<close> after \<open>d2\<close> and after \<open>d3\<close>\<close>
  "hslForm str d1 d2 d3 \<longleftrightarrow>
     (\<exists>kw w1 w2 w3 w4 w5 w6 p2 p3.
        str = kw @ ''('' @ w1 @ d1 @ w2 @ '','' @ w3 @ d2 @ p2 @ w4 @ '','' @ w5 @ d3 @ p3 @ w6 @ '')'' \<and>
        map canonicalize kw = ''HSL'' \<and>
        spaces w1 \<and> spaces w2 \<and> spaces w3 \<and> spaces w4 \<and> spaces w5 \<and> spaces w6 \<and>
        percentSign p2 \<and> percentSign p3 \<and>
        digitGroup d1 \<and> digitGroup d2 \<and> digitGroup d3)"



definition foreign :: "char \<Rightarrow> bool" where
  \<comment> \<open>a character that occurs in none of the three grammars\<close>
  "foreign c \<longleftrightarrow> \<not> isSpace c \<and> \<not> isHexDigit c \<and> canonicalize c \<notin> set ''RGBHSL(),%#''"





definition validRGB :: "RGBColor \<Rightarrow> bool" where
  "validRGB c \<longleftrightarrow> 0 \<le> r c \<and> r c \<le> 255 \<and> 0 \<le> g c \<and> g c \<le> 255 \<and> 0 \<le> b c \<and> b c \<le> 255"

section \<open>Hexadecimal serialisation\<close>

lemma hexDigit_cases:
  assumes "(d::nat) < 16"
  shows "d \<in> {0, 1, 2, 3, 4, 5, 6, 7, 8, 9, 10, 11, 12, 13, 14, 15}"
  using assms by (auto simp: less_Suc_eq numeral_eq_Suc)

lemma hexDigit_props:
  assumes "d < 16"
  shows "isLowerHexDigit (hexDigit d)" "isHexDigit (hexDigit d)" "\<not> isSpace (hexDigit d)"
    "hexDigit d \<noteq> CHR ''-''" "hexDigit d \<noteq> CHR ''+''" "hexDigit d \<noteq> CHR ''x''"
    "hexDigit d \<noteq> CHR ''X''" "hexDigit d \<noteq> CHR ''#''" "hexVal (hexDigit d) = d"
  using hexDigit_cases [OF assms]
  by (auto simp: hexDigit_def isLowerHexDigit_def isHexDigit_def isSpace_def hexVal_def isDigit_def)

lemma toHex_byte:
  assumes "0 \<le> n" "n \<le> 255"
  shows "toHex n = [hexDigit (nat n div 16), hexDigit (nat n mod 16)]"
proof (cases "nat n < 16")
  case True
  then have "nat n div 16 = 0" "nat n mod 16 = nat n" by simp_all
  with True assms show ?thesis
    by (simp add: toHex_def toString16_def padStart_def toString16_nat.simps [of "nat n"] hexDigit_def)
next
  case False
  with assms have "nat n div 16 < 16" by auto
  with False assms show ?thesis
    by (simp add: toHex_def toString16_def padStart_def toString16_nat.simps [of "nat n"]
        toString16_nat.simps [of "nat n div 16"])
qed

lemma parseInt16_pair:
  assumes "a < 16" "c < 16"
  shows "parseInt16 [hexDigit a, hexDigit c] = Some (int (16 * a + c))"
  using hexDigit_props [OF assms(1)] hexDigit_props [OF assms(2)]
  by (simp add: parseInt16_def hexValue_def Let_def)

lemma parseInt16_toHex:
  assumes "0 \<le> n" "n \<le> 255"
  shows "parseInt16 (toHex n) = Some n"
proof -
  have lt: "nat n div 16 < 16" "nat n mod 16 < 16" using assms by auto
  have e: "16 * (nat n div 16) + nat n mod 16 = nat n" by simp
  have "parseInt16 (toHex n) = Some (int (16 * (nat n div 16) + nat n mod 16))"
    unfolding toHex_byte [OF assms] by (rule parseInt16_pair [OF lt])
  then show ?thesis unfolding e using assms by simp
qed

lemma length_toHex:
  assumes "0 \<le> n" "n \<le> 255"
  shows "length (toHex n) = 2"
  using toHex_byte [OF assms] by simp

lemma toHex_no_hash:
  assumes "0 \<le> n" "n \<le> 255"
  shows "CHR ''#'' \<notin> set (toHex n)"
proof -
  have "nat n div 16 < 16" "nat n mod 16 < 16" using assms by auto
  then show ?thesis
    using toHex_byte [OF assms] hexDigit_props(8) [of "nat n div 16"]
      hexDigit_props(8) [of "nat n mod 16"] by auto
qed

lemma hexToRgb_rgbToHex_valid:
  assumes "validRGB c"
  shows "hexToRgb (rgbToHex c) = Some c"
proof -
  from assms have rg: "0 \<le> r c" "r c \<le> 255" "0 \<le> g c" "g c \<le> 255" "0 \<le> b c" "b c \<le> 255"
    by (simp_all add: validRGB_def)
  let ?body = "toHex (r c) @ toHex (g c) @ toHex (b c)"
  have clean: "replaceFirst (CHR ''#'') (rgbToHex c) = ?body"
    by (simp add: rgbToHex_def)
  have len: "length (toHex (r c)) = 2" "length (toHex (g c)) = 2" "length (toHex (b c)) = 2"
    using rg by (simp_all add: length_toHex)
  have s1: "slice 0 2 ?body = toHex (r c)"
    and s2: "slice 2 4 ?body = toHex (g c)"
    and s3: "slice 4 6 ?body = toHex (b c)"
    using len by (simp_all add: slice_def)
  show ?thesis
    unfolding hexToRgb_def clean Let_def s1 s2 s3
    using rg by (simp add: parseInt16_toHex)
qed

text \<open>
  Claim C5: for every RGB colour with integer channels in [0,255],
  \<^verbatim>\<open>hexToRgb(rgbToHex(rgb))\<close> gives back the same triple.
\<close>

theorem hexToRgb_rgbToHex:
  assumes "validRGB c"
  shows "hexToRgb (rgbToHex c) = Some c"
  using assms by (rule hexToRgb_rgbToHex_valid)

theorem hexToRgb_rgbToHex_witness:
  "validRGB \<lparr>r = 108, g = 92, b = 231\<rparr> \<and>
   hexToRgb (rgbToHex \<lparr>r = 108, g = 92, b = 231\<rparr>) = Some \<lparr>r = 108, g = 92, b = 231\<rparr>"
proof -
  have v: "validRGB \<lparr>r = 108, g = 92, b = 231\<rparr>" by (simp add: validRGB_def)
  from v hexToRgb_rgbToHex [OF v] show ?thesis by simp
qed

section \<open>Hue of \<^verbatim>\<open>rgbToHsl\<close>\<close>










section \<open>Scanner steps\<close>

lemma digit_not_space: "isDigit c \<Longrightarrow> \<not> isSpace c"
  by (auto simp: isDigit_def isSpace_def)

lemma space_not_digit: "isSpace c \<Longrightarrow> \<not> isDigit c"
  by (auto simp: isDigit_def isSpace_def)

lemma punct_class [simp]:
  "\<not> isSpace (CHR '','')" "\<not> isDigit (CHR '','')"
  "\<not> isSpace (CHR '')'')" "\<not> isDigit (CHR '')'')"
  "\<not> isSpace (CHR ''%'')" "\<not> isDigit (CHR ''%'')"
  by (simp_all add: isDigit_def isSpace_def)

lemma skipSpaces_stop:
  assumes "spaces w" "\<not> isSpace c"
  shows "skipSpaces (w @ c # rest) = c # rest"
  using assms by (simp add: skipSpaces_def spaces_def list_all_iff dropWhile_append2)

lemma skipSpaces_group:
  assumes "spaces w" "digitGroup d"
  shows "skipSpaces (w @ d @ rest) = d @ rest"
proof -
  from assms(2) obtain c cs where d: "d = c # cs" and c: "isDigit c"
    by (cases d) (auto simp: digitGroup_def)
  show ?thesis unfolding d using skipSpaces_stop [OF assms(1) digit_not_space [OF c]] by simp
qed

lemma digits13_stop:
  assumes "digitGroup d" "\<not> isDigit c"
  shows "digits13 (d @ c # rest) = Some (d, c # rest)"
  using assms
  by (simp add: digits13_def digitGroup_def list_all_iff takeWhile_append2 dropWhile_append2)

lemma digits13_spaces:
  assumes "digitGroup d" "spaces w" "\<not> isDigit c"
  shows "digits13 (d @ w @ c # rest) = Some (d, w @ c # rest)"
proof (cases w)
  case Nil
  then show ?thesis using digits13_stop [OF assms(1,3)] by simp
next
  case (Cons x xs)
  with assms(2) have "\<not> isDigit x" by (simp add: spaces_def space_not_digit)
  from digits13_stop [OF assms(1) this] show ?thesis unfolding Cons by simp
qed

lemma digits13_percent:
  assumes "digitGroup d" "percentSign p" "spaces w" "\<not> isDigit c"
  shows "digits13 (d @ p @ w @ c # rest) = Some (d, p @ w @ c # rest)"
proof (cases "p = []")
  case True
  then show ?thesis using digits13_spaces [OF assms(1,3,4)] by simp
next
  case False
  with assms(2) have p: "p = ''%''" by (simp add: percentSign_def)
  show ?thesis unfolding p using digits13_stop [OF assms(1), of "CHR ''%''"] by simp
qed

lemma optional_percent:
  assumes "percentSign p" "spaces w" "c \<noteq> CHR ''%''"
  shows "optional (CHR ''%'') (p @ w @ c # rest) = w @ c # rest"
proof (cases "p = []")
  case True
  show ?thesis
  proof (cases w)
    case Nil
    with True assms(3) show ?thesis by (simp add: optional_def)
  next
    case (Cons x xs)
    with assms(2) have "x \<noteq> CHR ''%''" by (auto simp: spaces_def)
    with True Cons show ?thesis by (simp add: optional_def)
  qed
next
  case False
  with assms(1) have p: "p = ''%''" by (simp add: percentSign_def)
  show ?thesis unfolding p by (simp add: optional_def)
qed

lemma expect_head [simp]: "expect c (c # rest) = Some rest"
  by (simp add: expect_def)

lemma canonicalize_paren [simp]: "canonicalize (CHR ''('') = CHR ''(''"
  by (simp add: canonicalize_def)

lemma keyword_paren:
  assumes "map canonicalize kw = map canonicalize lit"
  shows "keyword (lit @ ''('') (kw @ CHR ''('' # rest) = Some rest"
proof -
  from assms have len: "length kw = length lit" by (metis length_map)
  then show ?thesis using assms by (simp add: keyword_def)
qed


lemma group_step:
  assumes "spaces w" "digitGroup d" "spaces w'" "\<not> isDigit c"
  shows "digits13 (skipSpaces (w @ d @ w' @ c # rest)) = Some (d, w' @ c # rest)"
  using skipSpaces_group [OF assms(1,2)] digits13_spaces [OF assms(2,3,4)] by simp

lemma group_step_percent:
  assumes "spaces w" "digitGroup d" "percentSign p" "spaces w'" "\<not> isDigit c"
  shows "digits13 (skipSpaces (w @ d @ p @ w' @ c # rest)) = Some (d, p @ w' @ c # rest)"
  using skipSpaces_group [OF assms(1,2)] digits13_percent [OF assms(2,3,4,5)] by simp

lemma punct_step:
  assumes "spaces w" "\<not> isSpace c"
  shows "expect c (skipSpaces (w @ c # rest)) = Some rest"
  using skipSpaces_stop [OF assms] by simp

lemma rgbForm_match:
  assumes "rgbForm str d1 d2 d3"
  shows "rgbMatch str = Some (d1, d2, d3)"
proof -
  from assms obtain kw w1 w2 w3 w4 w5 w6 where
    str: "str = kw @ ''('' @ w1 @ d1 @ w2 @ '','' @ w3 @ d2 @ w4 @ '','' @ w5 @ d3 @ w6 @ '')''"
    and kw: "map canonicalize kw = ''RGB''"
    and w: "spaces w1" "spaces w2" "spaces w3" "spaces w4" "spaces w5" "spaces w6"
    and d: "digitGroup d1" "digitGroup d2" "digitGroup d3"
    unfolding rgbForm_def by (elim exE conjE)
  let ?t5 = "w6 @ '')''"
  let ?t4 = "w5 @ d3 @ ?t5"
  let ?t3 = "w4 @ CHR '','' # ?t4"
  let ?t2 = "w3 @ d2 @ ?t3"
  let ?t1 = "w2 @ CHR '','' # ?t2"
  let ?t0 = "w1 @ d1 @ ?t1"
  have kw': "map canonicalize kw = map canonicalize ''rgb''"
    using kw by (simp add: canonicalize_def)
  have k: "keyword ''rgb('' str = Some ?t0"
    unfolding str using keyword_paren [OF kw', of ?t0] by simp
  have g1: "digits13 (skipSpaces ?t0) = Some (d1, ?t1)"
    by (rule group_step) (use w d in simp_all)
  have c1: "expect (CHR '','') (skipSpaces ?t1) = Some ?t2"
    by (rule punct_step) (use w in simp_all)
  have g2: "digits13 (skipSpaces ?t2) = Some (d2, ?t3)"
    by (rule group_step) (use w d in simp_all)
  have c2: "expect (CHR '','') (skipSpaces ?t3) = Some ?t4"
    by (rule punct_step) (use w in simp_all)
  have g3: "digits13 (skipSpaces ?t4) = Some (d3, ?t5)"
    using group_step [OF w(5) d(3) w(6), of "CHR '')''" "[]"] by simp
  have c3: "expect (CHR '')'') (skipSpaces ?t5) = Some []"
    using punct_step [OF w(6), of "CHR '')''" "[]"] by simp
  show ?thesis
    unfolding rgbMatch_def k by (simp add: g1 c1 g2 c2 g3 c3 endOfInput_def)
qed

lemma hslForm_match:
  assumes "hslForm str d1 d2 d3"
  shows "hslMatch str = Some (d1, d2, d3)"
proof -
  from assms obtain kw w1 w2 w3 w4 w5 w6 p2 p3 where
    str: "str = kw @ ''('' @ w1 @ d1 @ w2 @ '','' @ w3 @ d2 @ p2 @ w4 @ '','' @ w5 @ d3 @ p3 @ w6 @ '')''"
    and kw: "map canonicalize kw = ''HSL''"
    and w: "spaces w1" "spaces w2" "spaces w3" "spaces w4" "spaces w5" "spaces w6"
    and p: "percentSign p2" "percentSign p3"
    and d: "digitGroup d1" "digitGroup d2" "digitGroup d3"
    unfolding hslForm_def by (elim exE conjE)
  let ?t5 = "w6 @ '')''"
  let ?t4 = "w5 @ d3 @ p3 @ ?t5"
  let ?t3 = "w4 @ CHR '','' # ?t4"
  let ?t2 = "w3 @ d2 @ p2 @ ?t3"
  let ?t1 = "w2 @ CHR '','' # ?t2"
  let ?t0 = "w1 @ d1 @ ?t1"
  have kw': "map canonicalize kw = map canonicalize ''hsl''"
    using kw by (simp add: canonicalize_def)
  have k: "keyword ''hsl('' str = Some ?t0"
    unfolding str using keyword_paren [OF kw', of ?t0] by simp
  have g1: "digits13 (skipSpaces ?t0) = Some (d1, ?t1)"
    by (rule group_step) (use w d in simp_all)
  have c1: "expect (CHR '','') (skipSpaces ?t1) = Some ?t2"
    by (rule punct_step) (use w in simp_all)
  have g2: "digits13 (skipSpaces ?t2) = Some (d2, p2 @ ?t3)"
    by (rule group_step_percent) (use w d p in simp_all)
  have o2: "optional (CHR ''%'') (p2 @ ?t3) = ?t3"
    by (rule optional_percent) (use w p in simp_all)
  have c2: "expect (CHR '','') (skipSpaces ?t3) = Some ?t4"
    by (rule punct_step) (use w in simp_all)
  have g3: "digits13 (skipSpaces ?t4) = Some (d3, p3 @ ?t5)"
    using group_step_percent [OF w(5) d(3) p(2) w(6), of "CHR '')''" "[]"] by simp
  have o3: "optional (CHR ''%'') (p3 @ ?t5) = ?t5"
    using optional_percent [OF p(2) w(6), of "CHR '')''" "[]"] by simp
  have c3: "expect (CHR '')'') (skipSpaces ?t5) = Some []"
    using punct_step [OF w(6), of "CHR '')''" "[]"] by simp
  show ?thesis
    unfolding hslMatch_def k by (simp add: g1 c1 g2 o2 c2 g3 o3 c3 endOfInput_def)
qed


lemma canonicalize_paren_inv:
  assumes "canonicalize c = CHR ''(''"
  shows "c = CHR ''(''"
  using assms by (simp add: canonicalize_def split: if_splits)

lemma keyword_inv:
  assumes "keyword (lit @ ''('') str = Some t"
  shows "\<exists>kw. str = kw @ CHR ''('' # t \<and> map canonicalize kw = map canonicalize lit"
proof -
  let ?pre = "take (length (lit @ ''('')) str"
  from assms have m: "map canonicalize ?pre = map canonicalize (lit @ ''('')"
    and t: "t = drop (length (lit @ ''('')) str"
    by (auto simp: keyword_def split: if_splits)
  from m have "length ?pre = length (lit @ ''('')" by (metis length_map)
  then have "?pre \<noteq> []" by auto
  then obtain kw c where pre: "?pre = kw @ [c]" by (metis rev_exhaust)
  from m have "map canonicalize kw = map canonicalize lit" "canonicalize c = CHR ''(''"
    unfolding pre by simp_all
  moreover have "str = ?pre @ t" unfolding t by simp
  ultimately show ?thesis unfolding pre using canonicalize_paren_inv by auto
qed

lemma digits13_inv:
  assumes "digits13 str = Some (d, t)"
  shows "str = d @ t" "digitGroup d"
proof -
  from assms have d: "d = takeWhile isDigit str" and t: "t = dropWhile isDigit str"
    and len: "1 \<le> length d" "length d \<le> 3"
    by (auto simp: digits13_def Let_def split: if_splits)
  show "str = d @ t" unfolding d t by simp
  have "list_all isDigit d" unfolding d list_all_iff by (auto dest: set_takeWhileD)
  with len show "digitGroup d" by (simp add: digitGroup_def)
qed

lemma skipSpaces_inv: "\<exists>w. spaces w \<and> str = w @ skipSpaces str"
proof -
  have "spaces (takeWhile isSpace str)"
    unfolding spaces_def list_all_iff by (auto dest: set_takeWhileD)
  moreover have "str = takeWhile isSpace str @ skipSpaces str"
    by (simp add: skipSpaces_def)
  ultimately show ?thesis by blast
qed

lemma expect_inv:
  assumes "expect c str = Some t"
  shows "str = c # t"
  using assms by (auto simp: expect_def split: list.splits if_splits)

lemma expect_skip_inv:
  assumes "expect c (skipSpaces str) = Some t"
  shows "\<exists>w. spaces w \<and> str = w @ c # t"
  using skipSpaces_inv [of str] expect_inv [OF assms] by auto

lemma group_inv:
  assumes "digits13 (skipSpaces str) = Some (d, t)"
  shows "\<exists>w. spaces w \<and> str = w @ d @ t" "digitGroup d"
  using skipSpaces_inv [of str] digits13_inv [OF assms] by auto

lemma optional_inv: "\<exists>p. percentSign p \<and> str = p @ optional (CHR ''%'') str"
  by (cases str) (auto simp: optional_def percentSign_def)

lemma rgbMatch_form:
  assumes "rgbMatch str = Some (d1, d2, d3)"
  shows "rgbForm str d1 d2 d3"
proof -
  from assms obtain t0 t1 t2 t3 t4 t5 where
    k: "keyword ''rgb('' str = Some t0"
    and g1: "digits13 (skipSpaces t0) = Some (d1, t1)"
    and c1: "expect (CHR '','') (skipSpaces t1) = Some t2"
    and g2: "digits13 (skipSpaces t2) = Some (d2, t3)"
    and c2: "expect (CHR '','') (skipSpaces t3) = Some t4"
    and g3: "digits13 (skipSpaces t4) = Some (d3, t5)"
    and c3: "expect (CHR '')'') (skipSpaces t5) = Some []"
    by (auto simp: rgbMatch_def bind_eq_Some_conv endOfInput_def split: if_splits)
  from keyword_inv [of "''rgb''" str t0] k obtain kw where
    s0: "str = kw @ CHR ''('' # t0" and kw: "map canonicalize kw = map canonicalize ''rgb''"
    by auto
  from group_inv [OF g1] obtain w1 where w1: "spaces w1" "t0 = w1 @ d1 @ t1" by blast
  from expect_skip_inv [OF c1] obtain w2 where w2: "spaces w2" "t1 = w2 @ CHR '','' # t2" by blast
  from group_inv [OF g2] obtain w3 where w3: "spaces w3" "t2 = w3 @ d2 @ t3" by blast
  from expect_skip_inv [OF c2] obtain w4 where w4: "spaces w4" "t3 = w4 @ CHR '','' # t4" by blast
  from group_inv [OF g3] obtain w5 where w5: "spaces w5" "t4 = w5 @ d3 @ t5" by blast
  from expect_skip_inv [OF c3] obtain w6 where w6: "spaces w6" "t5 = w6 @ '')''" by blast
  have "str = kw @ ''('' @ w1 @ d1 @ w2 @ '','' @ w3 @ d2 @ w4 @ '','' @ w5 @ d3 @ w6 @ '')''"
    unfolding s0 w1(2) w2(2) w3(2) w4(2) w5(2) w6(2) by simp
  moreover have "map canonicalize kw = ''RGB''" using kw by (simp add: canonicalize_def)
  ultimately show ?thesis
    unfolding rgbForm_def
    using w1(1) w2(1) w3(1) w4(1) w5(1) w6(1) group_inv(2) [OF g1] group_inv(2) [OF g2]
      group_inv(2) [OF g3]
    by (intro exI conjI)
qed

lemma hslMatch_form:
  assumes "hslMatch str = Some (d1, d2, d3)"
  shows "hslForm str d1 d2 d3"
proof -
  from assms obtain t0 t1 t2 t3 t4 t5 where
    k: "keyword ''hsl('' str = Some t0"
    and g1: "digits13 (skipSpaces t0) = Some (d1, t1)"
    and c1: "expect (CHR '','') (skipSpaces t1) = Some t2"
    and g2: "digits13 (skipSpaces t2) = Some (d2, t3)"
    and c2: "expect (CHR '','') (skipSpaces (optional (CHR ''%'') t3)) = Some t4"
    and g3: "digits13 (skipSpaces t4) = Some (d3, t5)"
    and c3: "expect (CHR '')'') (skipSpaces (optional (CHR ''%'') t5)) = Some []"
    by (auto simp: hslMatch_def bind_eq_Some_conv endOfInput_def split: if_splits)
  from keyword_inv [of "''hsl''" str t0] k obtain kw where
    s0: "str = kw @ CHR ''('' # t0" and kw: "map canonicalize kw = map canonicalize ''hsl''"
    by auto
  from group_inv [OF g1] obtain w1 where w1: "spaces w1" "t0 = w1 @ d1 @ t1" by blast
  from expect_skip_inv [OF c1] obtain w2 where w2: "spaces w2" "t1 = w2 @ CHR '','' # t2" by blast
  from group_inv [OF g2] obtain w3 where w3: "spaces w3" "t2 = w3 @ d2 @ t3" by blast
  from optional_inv [of t3] obtain p2 where
    p2: "percentSign p2" "t3 = p2 @ optional (CHR ''%'') t3" by blast
  from expect_skip_inv [OF c2] obtain w4 where
    w4: "spaces w4" "optional (CHR ''%'') t3 = w4 @ CHR '','' # t4" by blast
  from group_inv [OF g3] obtain w5 where w5: "spaces w5" "t4 = w5 @ d3 @ t5" by blast
  from optional_inv [of t5] obtain p3 where
    p3: "percentSign p3" "t5 = p3 @ optional (CHR ''%'') t5" by blast
  from expect_skip_inv [OF c3] obtain w6 where
    w6: "spaces w6" "optional (CHR ''%'') t5 = w6 @ '')''" by blast
  have t3: "t3 = p2 @ w4 @ CHR '','' # t4" using p2(2) w4(2) by simp
  have t5: "t5 = p3 @ w6 @ '')''" using p3(2) w6(2) by simp
  have "str = kw @ ''('' @ w1 @ d1 @ w2 @ '','' @ w3 @ d2 @ p2 @ w4 @ '','' @ w5 @ d3 @ p3 @ w6 @ '')''"
    unfolding s0 w1(2) w2(2) w3(2) t3 w5(2) t5 by simp
  moreover have "map canonicalize kw = ''HSL''" using kw by (simp add: canonicalize_def)
  ultimately show ?thesis
    unfolding hslForm_def
    using w1(1) w2(1) w3(1) w4(1) w5(1) w6(1) p2(1) p3(1) group_inv(2) [OF g1]
      group_inv(2) [OF g2] group_inv(2) [OF g3]
    by (intro exI conjI)
qed

lemma hexMatch_iff:
  "hexMatch str = Some ds \<longleftrightarrow>
     (str = ds \<or> str = CHR ''#'' # ds) \<and> list_all isHexDigit ds \<and> (length ds = 3 \<or> length ds = 6)"
  by (cases str) (auto simp: hexMatch_def optional_def Let_def isHexDigit_def)


lemma rgbMatch_iff: "rgbMatch str = Some (d1, d2, d3) \<longleftrightarrow> rgbForm str d1 d2 d3"
  using rgbMatch_form rgbForm_match by blast

lemma hslMatch_iff: "hslMatch str = Some (d1, d2, d3) \<longleftrightarrow> hslForm str d1 d2 d3"
  using hslMatch_form hslForm_match by blast

lemma hexMatch_None: "hexMatch str = None \<longleftrightarrow> \<not> hexGrammar str"
proof -
  have "hexGrammar str \<longleftrightarrow> (\<exists>ds. hexMatch str = Some ds)"
    unfolding hexGrammar_def hexMatch_iff ..
  then show ?thesis by auto
qed












lemma canonicalize_punct [simp]:
  "canonicalize (CHR '')'') = CHR '')''" "canonicalize (CHR '','') = CHR '',''"
  "canonicalize (CHR ''%'') = CHR ''%''" "canonicalize (CHR ''#'') = CHR ''#''"
  by (simp_all add: canonicalize_def)




lemma hexGrammar_alphabet:
  assumes "hexGrammar str" "c \<in> set str"
  shows "isHexDigit c \<or> c = CHR ''#''"
  using assms by (auto simp: hexGrammar_def list_all_iff)


lemma rgbForm_paren: "rgbForm str d1 d2 d3 \<Longrightarrow> CHR ''('' \<in> set str"
  unfolding rgbForm_def by (elim exE conjE) simp

lemma hslForm_paren: "hslForm str d1 d2 d3 \<Longrightarrow> CHR ''('' \<in> set str"
  unfolding hslForm_def by (elim exE conjE) simp













lemma foreign_chars [simp]: "foreign (CHR ''-'')" "foreign (CHR ''.'')" "foreign (CHR ''/'')"
  by (simp_all add: foreign_def isSpace_def isHexDigit_def canonicalize_def)



section \<open>Palette generation\<close>












section \<open>Range of \<^verbatim>\<open>hslToRgb\<close>\<close>





section \<open>Canonical output\<close>






lemma decValue_nonneg: "0 \<le> decValue ds"
  by (simp add: decValue_def)






section \<open>Clamping in \<^verbatim>\<open>parseColor\<close>\<close>

lemma not_hex_paren: "\<not> isHexDigit (CHR ''('')"
  by (simp add: isHexDigit_def)

lemma rgbForm_not_hex:
  assumes "rgbForm str d1 d2 d3"
  shows "hexMatch str = None"
  using hexGrammar_alphabet [OF _ rgbForm_paren [OF assms]] not_hex_paren
  by (auto simp: hexMatch_None)

lemma hslForm_not_hex:
  assumes "hslForm str d1 d2 d3"
  shows "hexMatch str = None"
  using hexGrammar_alphabet [OF _ hslForm_paren [OF assms]] not_hex_paren
  by (auto simp: hexMatch_None)

lemma rgbForm_prefix:
  assumes "rgbForm str d1 d2 d3"
  shows "map canonicalize (take 3 str) = ''RGB''"
proof -
  from assms obtain kw w1 w2 w3 w4 w5 w6 where
    str: "str = kw @ ''('' @ w1 @ d1 @ w2 @ '','' @ w3 @ d2 @ w4 @ '','' @ w5 @ d3 @ w6 @ '')''"
    and kw: "map canonicalize kw = ''RGB''"
    unfolding rgbForm_def by (elim exE conjE)
  from kw have "length (map canonicalize kw) = 3" by simp
  then have "length kw = 3" by simp
  with kw show ?thesis unfolding str by simp
qed

lemma hslForm_prefix:
  assumes "hslForm str d1 d2 d3"
  shows "map canonicalize (take 3 str) = ''HSL''"
proof -
  from assms obtain kw w1 w2 w3 w4 w5 w6 p2 p3 where
    str: "str = kw @ ''('' @ w1 @ d1 @ w2 @ '','' @ w3 @ d2 @ p2 @ w4 @ '','' @ w5 @ d3 @ p3 @ w6 @ '')''"
    and kw: "map canonicalize kw = ''HSL''"
    unfolding hslForm_def by (elim exE conjE)
  from kw have "length (map canonicalize kw) = 3" by simp
  then have "length kw = 3" by simp
  with kw show ?thesis unfolding str by simp
qed

lemma hslForm_not_rgb:
  assumes "hslForm str d1 d2 d3"
  shows "rgbMatch str = None"
proof (rule ccontr)
  assume "rgbMatch str \<noteq> None"
  then obtain e1 e2 e3 where "rgbMatch str = Some (e1, e2, e3)" by auto
  then have "rgbForm str e1 e2 e3" by (simp add: rgbMatch_iff)
  from rgbForm_prefix [OF this] hslForm_prefix [OF assms] show False by simp
qed

lemma parseColor_rgb:
  assumes "rgbForm (trim input) d1 d2 d3"
  shows "parseColor input =
    Inr (rgbToHex \<lparr>r = min 255 (decValue d1), g = min 255 (decValue d2), b = min 255 (decValue d3)\<rparr>)"
  using rgbForm_not_hex [OF assms] rgbForm_match [OF assms] by (simp add: parseColor_def)

lemma parseColor_hsl:
  assumes "hslForm (trim input) d1 d2 d3"
  shows "parseColor input =
    Inr (hslToHex \<lparr>h = min 360 (decValue d1), s = min 100 (decValue d2), l = min 100 (decValue d3)\<rparr>)"
  using hslForm_not_hex [OF assms] hslForm_not_rgb [OF assms] hslForm_match [OF assms]
  by (simp add: parseColor_def)

lemma decDigit_props:
  assumes "d < 10"
  shows "isDigit (decDigit d)" "of_char (decDigit d) - 48 = d"
proof -
  from assms have "d \<in> {0, 1, 2, 3, 4, 5, 6, 7, 8, 9}" by auto
  then show "isDigit (decDigit d)" "of_char (decDigit d) - 48 = d"
    by (auto simp: decDigit_def isDigit_def)
qed

lemma String_nat_small:
  assumes "n < 1000"
  shows "digitGroup (String_nat n)" "decValue (String_nat n) = int n"
proof -
  consider "n < 10" | "10 \<le> n" "n < 100" | "100 \<le> n" by linarith
  then have "digitGroup (String_nat n) \<and> decValue (String_nat n) = int n"
  proof cases
    case 1
    then show ?thesis
      using decDigit_props [of n]
      by (simp add: String_nat.simps [of n] digitGroup_def decValue_def)
  next
    case 2
    then have a: "n div 10 < 10" "n mod 10 < 10" by auto
    have "String_nat n = [decDigit (n div 10), decDigit (n mod 10)]"
      using 2 a by (simp add: String_nat.simps [of n] String_nat.simps [of "n div 10"])
    then show ?thesis
      using decDigit_props [OF a(1)] decDigit_props [OF a(2)]
      by (simp add: digitGroup_def decValue_def)
  next
    case 3
    with assms have a: "n div 10 div 10 < 10" "n div 10 mod 10 < 10" "n mod 10 < 10"
      "10 \<le> n div 10" by auto
    have "String_nat n = [decDigit (n div 10 div 10), decDigit (n div 10 mod 10), decDigit (n mod 10)]"
      using 3 a by (simp add: String_nat.simps [of n] String_nat.simps [of "n div 10"]
          String_nat.simps [of "n div 10 div 10"])
    moreover have "10 * (10 * (n div 10 div 10) + n div 10 mod 10) + n mod 10 = n" by simp
    ultimately show ?thesis
      using decDigit_props [OF a(1)] decDigit_props [OF a(2)] decDigit_props [OF a(3)]
      by (simp add: digitGroup_def decValue_def)
  qed
  then show "digitGroup (String_nat n)" "decValue (String_nat n) = int n" by simp_all
qed

lemma trim_id:
  assumes "\<not> isSpace c" "\<not> isSpace e"
  shows "trim (c # xs @ [e]) = c # xs @ [e]"
  using assms by (simp add: trim_def)

lemma trim_rgbText: "trim (rgbText x y z) = rgbText x y z"
proof -
  have e: "rgbText x y z =
    CHR ''r'' # (''gb('' @ String_nat (nat x) @ '','' @ String_nat (nat y) @ '','' @ String_nat (nat z)) @ '')''"
    by (simp add: rgbText_def)
  show ?thesis unfolding e by (rule trim_id) (simp_all add: isSpace_def)
qed

lemma trim_hslText: "trim (hslText x y z) = hslText x y z"
proof -
  have e: "hslText x y z =
    CHR ''h'' # (''sl('' @ String_nat (nat x) @ '','' @ String_nat (nat y) @ '','' @ String_nat (nat z)) @ '')''"
    by (simp add: hslText_def)
  show ?thesis unfolding e by (rule trim_id) (simp_all add: isSpace_def)
qed

lemma rgbText_form:
  assumes "0 \<le> x" "x < 1000" "0 \<le> y" "y < 1000" "0 \<le> z" "z < 1000"
  shows "rgbForm (rgbText x y z) (String_nat (nat x)) (String_nat (nat y)) (String_nat (nat z))"
proof -
  have n: "nat x < 1000" "nat y < 1000" "nat z < 1000" using assms by auto
  show ?thesis
    unfolding rgbForm_def
    apply (rule exI [of _ "''rgb''"])
    apply (rule exI [of _ "[]"])+
    using String_nat_small(1) [OF n(1)] String_nat_small(1) [OF n(2)] String_nat_small(1) [OF n(3)]
    by (simp add: rgbText_def spaces_def canonicalize_def)
qed

lemma hslText_form:
  assumes "0 \<le> x" "x < 1000" "0 \<le> y" "y < 1000" "0 \<le> z" "z < 1000"
  shows "hslForm (hslText x y z) (String_nat (nat x)) (String_nat (nat y)) (String_nat (nat z))"
proof -
  have n: "nat x < 1000" "nat y < 1000" "nat z < 1000" using assms by auto
  show ?thesis
    unfolding hslForm_def
    apply (rule exI [of _ "''hsl''"])
    apply (rule exI [of _ "[]"])+
    using String_nat_small(1) [OF n(1)] String_nat_small(1) [OF n(2)] String_nat_small(1) [OF n(3)]
    by (simp add: hslText_def spaces_def canonicalize_def percentSign_def)
qed

lemma decValue_String_nat:
  assumes "0 \<le> x" "x < 1000"
  shows "decValue (String_nat (nat x)) = x"
  using String_nat_small(2) [of "nat x"] assms by simp

lemma parseColor_rgbText:
  assumes "0 \<le> x" "x \<le> 255" "0 \<le> y" "y \<le> 255" "0 \<le> z" "z \<le> 255"
  shows "parseColor (rgbText x y z) = Inr (rgbToHex \<lparr>r = x, g = y, b = z\<rparr>)"
proof -
  have "rgbForm (trim (rgbText x y z)) (String_nat (nat x)) (String_nat (nat y)) (String_nat (nat z))"
    unfolding trim_rgbText using assms by (intro rgbText_form) simp_all
  from parseColor_rgb [OF this] show ?thesis using assms by (simp add: decValue_String_nat)
qed

lemma parseColor_hslText:
  assumes "0 \<le> x" "x \<le> 360" "0 \<le> y" "y \<le> 100" "0 \<le> z" "z \<le> 100"
  shows "parseColor (hslText x y z) = Inr (hslToHex \<lparr>h = x, s = y, l = z\<rparr>)"
proof -
  have "hslForm (trim (hslText x y z)) (String_nat (nat x)) (String_nat (nat y)) (String_nat (nat z))"
    unfolding trim_hslText using assms by (intro hslText_form) simp_all
  from parseColor_hsl [OF this] show ?thesis using assms by (simp add: decValue_String_nat)
qed

text \<open>
  Claim C7: numeric values out of range are clamped, not rejected. An input of the
  \<^verbatim>\<open>rgb()\<close> grammar parses to the colour of its channels capped at 255 each; an input of
  the \<^verbatim>\<open>hsl()\<close> grammar parses to the colour of its hue capped at 360 and its saturation
  and lightness capped at 100. Both succeed, and give what the text of the capped values
  gives.
\<close>

theorem parseColor_clamps:
  "(rgbForm (trim input) d1 d2 d3 \<longrightarrow>
      parseColor input =
        Inr (rgbToHex \<lparr>r = min 255 (decValue d1), g = min 255 (decValue d2), b = min 255 (decValue d3)\<rparr>) \<and>
      parseColor input =
        parseColor (rgbText (min 255 (decValue d1)) (min 255 (decValue d2)) (min 255 (decValue d3)))) \<and>
   (hslForm (trim input) d1 d2 d3 \<longrightarrow>
      parseColor input =
        Inr (hslToHex \<lparr>h = min 360 (decValue d1), s = min 100 (decValue d2), l = min 100 (decValue d3)\<rparr>) \<and>
      parseColor input =
        parseColor (hslText (min 360 (decValue d1)) (min 100 (decValue d2)) (min 100 (decValue d3))))"
proof (intro conjI impI)
  assume f: "rgbForm (trim input) d1 d2 d3"
  show a: "parseColor input =
        Inr (rgbToHex \<lparr>r = min 255 (decValue d1), g = min 255 (decValue d2), b = min 255 (decValue d3)\<rparr>)"
    by (rule parseColor_rgb [OF f])
  show "parseColor input =
        parseColor (rgbText (min 255 (decValue d1)) (min 255 (decValue d2)) (min 255 (decValue d3)))"
    unfolding a by (rule parseColor_rgbText [symmetric]) (simp_all add: decValue_nonneg)
next
  assume f: "hslForm (trim input) d1 d2 d3"
  show a: "parseColor input =
        Inr (hslToHex \<lparr>h = min 360 (decValue d1), s = min 100 (decValue d2), l = min 100 (decValue d3)\<rparr>)"
    by (rule parseColor_hsl [OF f])
  show "parseColor input =
        parseColor (hslText (min 360 (decValue d1)) (min 100 (decValue d2)) (min 100 (decValue d3)))"
    unfolding a by (rule parseColor_hslText [symmetric]) (simp_all add: decValue_nonneg)
qed

lemmas scanner_defs = trim_def isSpace_def rgbMatch_def hslMatch_def keyword_def canonicalize_def
  skipSpaces_def digits13_def isDigit_def expect_def optional_def endOfInput_def

theorem parseColor_clamps_witness:
  "rgbForm (trim ''RGB( 300 ,007,  0 )'') ''300'' ''007'' ''0'' \<and>
   parseColor ''RGB( 300 ,007,  0 )'' = Inr ''#ff0700'' \<and>
   parseColor ''RGB( 300 ,007,  0 )'' = parseColor ''rgb(255,7,0)'' \<and>
   hslForm (trim ''hsl(999, 75%, 163)'') ''999'' ''75'' ''163'' \<and>
   parseColor ''hsl(999, 75%, 163)'' = Inr ''#ffffff'' \<and>
   parseColor ''hsl(999, 75%, 163)'' = parseColor ''hsl(360,75,100)''"
proof -
  have f: "rgbForm (trim ''RGB( 300 ,007,  0 )'') ''300'' ''007'' ''0''"
    unfolding rgbMatch_iff [symmetric] by (simp add: scanner_defs)
  have k: "hslForm (trim ''hsl(999, 75%, 163)'') ''999'' ''75'' ''163''"
    unfolding hslMatch_iff [symmetric] by (simp add: scanner_defs)
  have d: "decValue ''300'' = 300" "decValue ''007'' = 7" "decValue ''0'' = 0"
    "decValue ''999'' = 999" "decValue ''75'' = 75" "decValue ''163'' = 163"
    by (simp_all add: decValue_def)
  have t: "rgbText 255 7 0 = ''rgb(255,7,0)''" "hslText 360 75 100 = ''hsl(360,75,100)''"
    by (simp_all add: rgbText_def hslText_def String_nat.simps decDigit_def)
  have x: "rgbToHex \<lparr>r = 255, g = 7, b = 0\<rparr> = ''#ff0700''"
    by (simp add: rgbToHex_def toHex_def toString16_def padStart_def toString16_nat.simps hexDigit_def)
  have y: "hslToHex \<lparr>h = 360, s = 75, l = 100\<rparr> = ''#ffffff''"
    by (simp add: hslToHex_def hslToRgb_def Let_def jsRem_def mathRound_def rgbToHex_def toHex_def
        toString16_def padStart_def toString16_nat.simps hexDigit_def)
  note rgb = parseColor_clamps [of "''RGB( 300 ,007,  0 )''" "''300''" "''007''" "''0''",
      THEN conjunct1, rule_format, OF f]
  note hsl = parseColor_clamps [of "''hsl(999, 75%, 163)''" "''999''" "''75''" "''163''",
      THEN conjunct2, rule_format, OF k]
  have 1: "parseColor ''RGB( 300 ,007,  0 )'' = Inr ''#ff0700''"
    using rgb [THEN conjunct1] by (simp add: d x)
  have 2: "parseColor ''RGB( 300 ,007,  0 )'' = parseColor ''rgb(255,7,0)''"
    using rgb [THEN conjunct2] by (simp add: d t)
  have 3: "parseColor ''hsl(999, 75%, 163)'' = Inr ''#ffffff''"
    using hsl [THEN conjunct1] by (simp add: d y)
  have 4: "parseColor ''hsl(999, 75%, 163)'' = parseColor ''hsl(360,75,100)''"
    using hsl [THEN conjunct2] by (simp add: d t)
  from f 1 2 k 3 4 show ?thesis by (intro conjI)
qed

section \<open>Contrast ratio\<close>

lemma linearize_range:
  assumes "0 \<le> c" "c \<le> 255"
  shows "0 \<le> linearize c" "linearize c \<le> 1"
proof -
  let ?srgb = "real_of_int c / 255"
  have s: "0 \<le> ?srgb" "?srgb \<le> 1" using assms by simp_all
  have base: "0 \<le> (?srgb + 0.055) / 1.055" "(?srgb + 0.055) / 1.055 \<le> 1" using s by simp_all
  have "((?srgb + 0.055) / 1.055) powr 2.4 \<le> 1 powr 2.4"
    by (rule powr_mono2) (use base in simp_all)
  then have p: "((?srgb + 0.055) / 1.055) powr 2.4 \<le> 1" by simp
  show "0 \<le> linearize c" using s by (simp add: linearize_def Let_def)
  show "linearize c \<le> 1"
  proof (cases "?srgb \<le> 0.03928")
    case True
    then have "linearize c = ?srgb / 12.92" by (simp add: linearize_def Let_def)
    with s show ?thesis by simp
  next
    case False
    then have "linearize c = ((?srgb + 0.055) / 1.055) powr 2.4" by (simp add: linearize_def Let_def)
    with p show ?thesis by simp
  qed
qed

lemma relativeLuminance_range:
  assumes "validRGB c"
  shows "0 \<le> relativeLuminance c" "relativeLuminance c \<le> 1"
proof -
  from assms have v: "0 \<le> r c" "r c \<le> 255" "0 \<le> g c" "g c \<le> 255" "0 \<le> b c" "b c \<le> 255"
    by (simp_all add: validRGB_def)
  note lr = linearize_range [OF v(1,2)] and lg = linearize_range [OF v(3,4)]
    and lb = linearize_range [OF v(5,6)]
  show "0 \<le> relativeLuminance c" unfolding relativeLuminance_def using lr(1) lg(1) lb(1) by simp
  show "relativeLuminance c \<le> 1" unfolding relativeLuminance_def using lr(2) lg(2) lb(2) by simp
qed

lemma contrastRatio_sym: "contrastRatio c1 c2 = contrastRatio c2 c1"
  by (simp add: contrastRatio_def Let_def max.commute min.commute)

lemma ratio_bounds:
  fixes la lb :: real
  assumes "0 \<le> la" "la \<le> 1" "0 \<le> lb" "lb \<le> 1"
  shows "1 \<le> (max la lb + 0.05) / (min la lb + 0.05)" "(max la lb + 0.05) / (min la lb + 0.05) \<le> 21"
proof -
  have pos: "0 < min la lb + 0.05" using assms by simp
  have "min la lb + 0.05 \<le> max la lb + 0.05" by simp
  with pos show "1 \<le> (max la lb + 0.05) / (min la lb + 0.05)" by (simp add: le_divide_eq)
  have "(max la lb + 0.05) / (min la lb + 0.05) \<le> (1 + 0.05) / (0 + 0.05)"
    by (rule frac_le) (use assms in simp_all)
  then show "(max la lb + 0.05) / (min la lb + 0.05) \<le> 21" by simp
qed

text \<open>
  Claim C6: for every pair of RGB colours with integer channels in [0,255],
  \<^verbatim>\<open>contrastRatio(a, b)\<close> equals \<^verbatim>\<open>contrastRatio(b, a)\<close> and lies in [1, 21].
\<close>

theorem contrastRatio_symmetric_bounded:
  assumes "validRGB c1" "validRGB c2"
  shows "contrastRatio c1 c2 = contrastRatio c2 c1 \<and> 1 \<le> contrastRatio c1 c2 \<and> contrastRatio c1 c2 \<le> 21"
proof -
  note b1 = relativeLuminance_range [OF assms(1)] and b2 = relativeLuminance_range [OF assms(2)]
  from ratio_bounds [OF b1 b2] contrastRatio_sym [of c1 c2] show ?thesis
    by (simp add: contrastRatio_def Let_def)
qed

lemma linearize_0 [simp]: "linearize 0 = 0"
  by (simp add: linearize_def)

lemma linearize_255 [simp]: "linearize 255 = 1"
  by (simp add: linearize_def)

lemma luminance_black: "relativeLuminance \<lparr>r = 0, g = 0, b = 0\<rparr> = 0"
  by (simp add: relativeLuminance_def)

lemma luminance_white: "relativeLuminance \<lparr>r = 255, g = 255, b = 255\<rparr> = 1"
  by (simp add: relativeLuminance_def)

theorem contrastRatio_symmetric_bounded_witness:
  "validRGB \<lparr>r = 255, g = 255, b = 255\<rparr> \<and> validRGB \<lparr>r = 0, g = 0, b = 0\<rparr> \<and>
   contrastRatio \<lparr>r = 255, g = 255, b = 255\<rparr> \<lparr>r = 0, g = 0, b = 0\<rparr> = 21 \<and>
   contrastRatio \<lparr>r = 0, g = 0, b = 0\<rparr> \<lparr>r = 255, g = 255, b = 255\<rparr> = 21 \<and>
   1 \<le> contrastRatio \<lparr>r = 255, g = 255, b = 255\<rparr> \<lparr>r = 0, g = 0, b = 0\<rparr>"
proof -
  have w: "validRGB \<lparr>r = 255, g = 255, b = 255\<rparr>" and k: "validRGB \<lparr>r = 0, g = 0, b = 0\<rparr>"
    by (simp_all add: validRGB_def)
  have e: "contrastRatio \<lparr>r = 255, g = 255, b = 255\<rparr> \<lparr>r = 0, g = 0, b = 0\<rparr> = 21"
    by (simp add: contrastRatio_def Let_def luminance_black luminance_white)
  from contrastRatio_symmetric_bounded [OF w k] e w k show ?thesis by simp
qed

section \<open>Round trip through HSL\<close>

























section \<open>Text colour on a background\<close>

text \<open>
  On the hex of a valid colour \<^verbatim>\<open>textColorForBackground\<close> is white when white has the
  strictly higher contrast ratio and black otherwise; equal ratios, if a colour had
  them, would give black.
\<close>

lemma textColorForBackground_choice:
  assumes "validRGB c"
  shows "textColorForBackground (rgbToHex c) =
    (if contrastRatio c \<lparr>r = 255, g = 255, b = 255\<rparr> > contrastRatio c \<lparr>r = 0, g = 0, b = 0\<rparr>
     then ''#ffffff'' else ''#000000'')"
  unfolding textColorForBackground_def hexToRgb_rgbToHex_valid [OF assms] by (simp add: Let_def)

lemma textColorForBackground_dark:
  "textColorForBackground (rgbToHex \<lparr>r = 0, g = 0, b = 0\<rparr>) = ''#ffffff''"
proof -
  have v: "validRGB \<lparr>r = 0, g = 0, b = 0\<rparr>" by (simp add: validRGB_def)
  show ?thesis
    unfolding textColorForBackground_choice [OF v]
    by (simp add: contrastRatio_def Let_def luminance_black luminance_white)
qed

lemma textColorForBackground_light:
  "textColorForBackground (rgbToHex \<lparr>r = 255, g = 255, b = 255\<rparr>) = ''#000000''"
proof -
  have v: "validRGB \<lparr>r = 255, g = 255, b = 255\<rparr>" by (simp add: validRGB_def)
  show ?thesis
    unfolding textColorForBackground_choice [OF v]
    by (simp add: contrastRatio_def Let_def luminance_black luminance_white)
qed

end
